theory Spec2Isabelle
  imports Complex_Main "HOL-Library.Multiset" "HOL-Library.Sublist"
begin

section \<open>The anomaly engine of dashboard/app.js\<close>

text \<open>
  The engine of \<^verbatim>\<open>dashboard/app.js\<close> is the group of functions \<^verbatim>\<open>detectAnomalies\<close>,
  \<^verbatim>\<open>median\<close>, \<^verbatim>\<open>calculateAnomalyScore\<close> and \<^verbatim>\<open>calculatePriceChange\<close>, called from
  \<^verbatim>\<open>analyzeAllMarkets\<close>. JavaScript numbers are read as follows: timestamps are integer
  epoch seconds (\<open>int\<close>), sizes, prices, volumes and ratios are finite numbers (\<open>real\<close>,
  so rounding of doubles, \<^verbatim>\<open>NaN\<close> and the infinities are left out), and a field that may
  be missing from a trade is an \<open>option\<close>.
\<close>

subsection \<open>Data\<close>

record trade =
  timestamp :: int
  proxyWallet :: string
  side :: string
  tsize :: "real option"
  price :: "real option"

record market =
  conditionId :: string
  question :: string
  slug :: string
  mtype :: string
  volume24h :: real
  liquidity :: real

record price_change =
  change :: real
  direction :: string
  futurePrice :: real
  eventPrice :: real
  pc_tradeCount :: nat

record params =
  anomalies :: "string list"
  volumeRatio :: real
  tradeSizeRatio :: real
  priceRangePct :: real
  tradeCount :: nat
  imbalanceRatio :: real
  marketLiquidity :: real
  marketVolume :: real

text \<open>
  The event object of \<^verbatim>\<open>detectAnomalies\<close>. Its \<^verbatim>\<open>datetime\<close> field is the timestamp
  rendered by \<^verbatim>\<open>toLocaleString\<close>, a display string that no computation reads; it is
  not part of the record.
\<close>

record event =
  e_timestamp :: int
  e_market :: string
  e_marketType :: string
  e_conditionId :: string
  e_slug :: string
  e_anomalies :: "string list"
  e_walletCount :: nat
  e_totalVolume :: real
  e_netVolume :: real
  e_volumeRatio :: real
  e_tradeSize :: real
  e_priceRangePct :: real
  e_isBuy :: bool
  e_tradeCount :: nat
  e_score :: int
  e_priceChange :: "price_change option"

record stat =
  wallets :: nat
  volume :: real

datatype error = TypeError

subsection \<open>JavaScript operators\<close>

text \<open>\<^verbatim>\<open>x || d\<close> on a number that may be missing: \<open>d\<close> when \<open>x\<close> is missing or \<open>0\<close>.\<close>

fun or_else :: "real option \<Rightarrow> real \<Rightarrow> real" where
  "or_else None d = d"
| "or_else (Some x) d = (if x = 0 then d else x)"

text \<open>\<^verbatim>\<open>Math.round\<close>: the nearest integer, a half rounded towards plus infinity.\<close>

definition js_round :: "real \<Rightarrow> int" where
  "js_round x = \<lfloor>x + 1 / 2\<rfloor>"

subsection \<open>median\<close>

definition median :: "real list \<Rightarrow> real" where
  "median arr =
     (if length arr = 0 then 0
      else let sorted = sort arr;
               mid = length sorted div 2
           in if length sorted mod 2 \<noteq> 0 then sorted ! mid
              else (sorted ! (mid - 1) + sorted ! mid) / 2)"

subsection \<open>calculateAnomalyScore\<close>

definition typeWeights :: "string \<rightharpoonup> real" where
  "typeWeights = map_of
     [(''whale_trade'', 15), (''volume_spike'', 12), (''price_move'', 10),
      (''imbalance'', 8), (''high_frequency'', 5)]"

text \<open>
  \<^verbatim>\<open>typeWeights[type] || 5\<close>, for a \<open>type\<close> that is one of the five keys or a name the
  object does not know (names that every JavaScript object inherits, such as
  \<^verbatim>\<open>constructor\<close>, are not anomaly kinds and are not modelled).
\<close>

definition kind_weight :: "string \<Rightarrow> real" where
  "kind_weight type = (case typeWeights type of None \<Rightarrow> 5 | Some w \<Rightarrow> if w = 0 then 5 else w)"

definition calculateAnomalyScore :: "params \<Rightarrow> int" where
  "calculateAnomalyScore p =
     (let score = 0;
          score = foldl (\<lambda>score type. score + kind_weight type) score (anomalies p);
          score = (if length (anomalies p) \<ge> 3 then score + 10
                   else if length (anomalies p) \<ge> 2 then score + 5 else score);
          score = (if volumeRatio p > 20 then score + 20
                   else if volumeRatio p > 10 then score + 15
                   else if volumeRatio p > 5 then score + 10
                   else if volumeRatio p > 3 then score + 5 else score);
          score = (if tradeSizeRatio p > 50 then score + 15
                   else if tradeSizeRatio p > 30 then score + 12
                   else if tradeSizeRatio p > 20 then score + 8
                   else if tradeSizeRatio p > 10 then score + 5 else score);
          score = (if priceRangePct p > 20 then score + 10
                   else if priceRangePct p > 10 then score + 7
                   else if priceRangePct p > 5 then score + 4 else score);
          score = (if imbalanceRatio p > 0.95 then score + 10
                   else if imbalanceRatio p > 0.9 then score + 7
                   else if imbalanceRatio p > 0.85 then score + 4 else score);
          score = (if marketLiquidity p > 10000 then score + 5
                   else if marketLiquidity p > 5000 then score + 3
                   else if marketLiquidity p > 1000 then score + 1 else score)
      in min 100 (js_round score))"

subsection \<open>The deduplicator at the end of detectAnomalies\<close>

text \<open>
  The loop \<^verbatim>\<open>for (const e of events)\<close> with its variable \<^verbatim>\<open>lastTs\<close>; the result is
  the list \<^verbatim>\<open>deduped\<close>, in the order of the pushes.
\<close>

fun dedup_loop :: "int \<Rightarrow> event list \<Rightarrow> event list" where
  "dedup_loop lastTs [] = []"
| "dedup_loop lastTs (e # es) =
     (if e_timestamp e - lastTs \<ge> 5 then e # dedup_loop (e_timestamp e) es
      else dedup_loop lastTs es)"

definition dedup :: "event list \<Rightarrow> event list" where
  "dedup events = dedup_loop 0 events"

subsection \<open>calculatePriceChange\<close>

text \<open>
  \<^verbatim>\<open>trades[eventIndex].price\<close> throws a \<^verbatim>\<open>TypeError\<close> when the index is outside the
  array; \<open>Inr None\<close> is the returned \<^verbatim>\<open>null\<close>.
\<close>

definition futureWindow :: int where
  "futureWindow = 300"

definition calculatePriceChange :: "trade list \<Rightarrow> nat \<Rightarrow> int \<Rightarrow> error + price_change option" where
  "calculatePriceChange trades eventIndex eventTime =
     (if eventIndex \<ge> length trades then Inl TypeError
      else let eventPrice = or_else (price (trades ! eventIndex)) 0
           in if eventPrice = 0 then Inr None
              else let futureTrades =
                         filter (\<lambda>t. timestamp t \<le> eventTime + futureWindow)
                           (drop (eventIndex + 1) trades)
                   in if length futureTrades = 0 then Inr None
                      else let lastPrice =
                                 or_else (price (futureTrades ! (length futureTrades - 1))) eventPrice;
                               change = (lastPrice - eventPrice) / eventPrice * 100
                           in Inr (Some \<lparr>change = change,
                                 direction = (if change > 0 then ''up''
                                              else if change < 0 then ''down'' else ''flat''),
                                 futurePrice = lastPrice,
                                 eventPrice = eventPrice,
                                 pc_tradeCount = length futureTrades\<rparr>))"

subsection \<open>detectAnomalies\<close>

definition windowSec :: int where
  "windowSec = 300"

text \<open>\<^verbatim>\<open>(t.size || 0) * (t.price || 0)\<close>, the notional value of a trade.\<close>

definition notional :: "trade \<Rightarrow> real" where
  "notional t = or_else (tsize t) 0 * or_else (price t) 0"

text \<open>
  The trailing window of index \<open>i\<close>: \<^verbatim>\<open>trades.slice(0, i + 1).filter(...)\<close>. Both loops
  of \<^verbatim>\<open>detectAnomalies\<close> compute it with the same expression, for \<open>i\<close> inside the array.
\<close>

definition window_at :: "trade list \<Rightarrow> nat \<Rightarrow> trade list" where
  "window_at trades i =
     (let currentTime = timestamp (trades ! i)
      in filter (\<lambda>t. currentTime - windowSec \<le> timestamp t \<and> timestamp t \<le> currentTime)
           (take (i + 1) trades))"

text \<open>The first loop: one entry of \<^verbatim>\<open>allStats\<close> for each index whose window has 3 trades.\<close>

definition stat_at :: "trade list \<Rightarrow> nat \<Rightarrow> stat option" where
  "stat_at trades i =
     (let window = window_at trades i
      in if length window \<ge> 3
         then Some \<lparr>wallets = card (set (map proxyWallet window)),
                    volume = foldl (\<lambda>sum t. sum + notional t) 0 window\<rparr>
         else None)"

definition allStats :: "trade list \<Rightarrow> stat list" where
  "allStats trades = List.map_filter (stat_at trades) [0..<length trades]"

text \<open>The metrics of a window that the second loop computes.\<close>

definition buyVol :: "trade list \<Rightarrow> real" where
  "buyVol window =
     foldl (\<lambda>sum x. sum + notional x) 0 (filter (\<lambda>x. side x = ''BUY'') window)"

definition sellVol :: "trade list \<Rightarrow> real" where
  "sellVol window =
     foldl (\<lambda>sum x. sum + notional x) 0 (filter (\<lambda>x. side x = ''SELL'') window)"

definition totalVol :: "trade list \<Rightarrow> real" where
  "totalVol window = buyVol window + sellVol window"

definition netVol :: "trade list \<Rightarrow> real" where
  "netVol window = buyVol window - sellVol window"

definition prices :: "trade list \<Rightarrow> real list" where
  "prices window = map (\<lambda>x. or_else (price x) 0) window"

definition priceRange :: "trade list \<Rightarrow> real" where
  "priceRange window = Max (set (prices window)) - Min (set (prices window))"

definition avgPrice :: "trade list \<Rightarrow> real" where
  "avgPrice window = foldl (\<lambda>a b. a + b) 0 (prices window) / real (length (prices window))"

text \<open>The five checks, in the order in which the code pushes the kinds.\<close>

definition classify :: "real \<Rightarrow> real \<Rightarrow> trade list \<Rightarrow> trade \<Rightarrow> string list" where
  "classify medianVolume medianTradeSize window t =
     (if medianVolume > 0 \<and> totalVol window > medianVolume * 5 then [''volume_spike''] else []) @
     (if medianTradeSize > 0 \<and> notional t > medianTradeSize * 20 then [''whale_trade''] else []) @
     (if totalVol window > 100 \<and> \<bar>netVol window\<bar> / totalVol window > 0.85
      then [''imbalance''] else []) @
     (if avgPrice window > 0 \<and> priceRange window / avgPrice window > 0.1
      then [''price_move''] else []) @
     (if length window > 10 then [''high_frequency''] else [])"

text \<open>
  The body of the second loop at index \<open>i\<close>: \<open>Inr None\<close> when the index is skipped or
  no kind matches, \<open>Inr (Some e)\<close> for the event pushed, \<open>Inl\<close> when the call of
  \<^verbatim>\<open>calculatePriceChange\<close> throws.
\<close>

definition detect_at ::
  "real \<Rightarrow> real \<Rightarrow> market \<Rightarrow> trade list \<Rightarrow> nat \<Rightarrow> error + event option" where
  "detect_at medianVolume medianTradeSize market trades i =
     (let t = trades ! i;
          currentTime = timestamp t;
          window = window_at trades i
      in if length window < 3 then Inr None
         else let walletCount = card (set (map proxyWallet window));
                  anomalies = classify medianVolume medianTradeSize window t
              in if length anomalies > 0
                 then let score = calculateAnomalyScore
                            \<lparr>anomalies = anomalies,
                             volumeRatio = (if medianVolume > 0
                                            then totalVol window / medianVolume else 0),
                             tradeSizeRatio = (if medianTradeSize > 0
                                               then notional t / medianTradeSize else 0),
                             priceRangePct = (if avgPrice window > 0
                                              then priceRange window / avgPrice window * 100
                                              else 0),
                             tradeCount = length window,
                             imbalanceRatio = (if totalVol window > 0
                                               then \<bar>netVol window\<bar> / totalVol window else 0),
                             marketLiquidity = or_else (Some (liquidity market)) 0,
                             marketVolume = or_else (Some (volume24h market)) 0\<rparr>
                      in case calculatePriceChange trades i currentTime of
                           Inl err \<Rightarrow> Inl err
                         | Inr priceChange \<Rightarrow>
                             Inr (Some \<lparr>e_timestamp = currentTime,
                                   e_market = question market,
                                   e_marketType = mtype market,
                                   e_conditionId = conditionId market,
                                   e_slug = slug market,
                                   e_anomalies = anomalies,
                                   e_walletCount = walletCount,
                                   e_totalVolume = totalVol window,
                                   e_netVolume = netVol window,
                                   e_volumeRatio = (if medianVolume > 0
                                                    then totalVol window / medianVolume else 0),
                                   e_tradeSize = notional t,
                                   e_priceRangePct = (if avgPrice window > 0
                                                      then priceRange window / avgPrice window * 100
                                                      else 0),
                                   e_isBuy = (netVol window > 0),
                                   e_tradeCount = length window,
                                   e_score = score,
                                   e_priceChange = priceChange\<rparr>)
                 else Inr None)"

text \<open>The second loop over the indices, stopping at the first exception.\<close>

fun detect_loop ::
  "real \<Rightarrow> real \<Rightarrow> market \<Rightarrow> trade list \<Rightarrow> nat list \<Rightarrow> error + event list" where
  "detect_loop mv mt market trades [] = Inr []"
| "detect_loop mv mt market trades (i # is) =
     (case detect_at mv mt market trades i of
        Inl err \<Rightarrow> Inl err
      | Inr r \<Rightarrow>
          (case detect_loop mv mt market trades is of
             Inl err \<Rightarrow> Inl err
           | Inr events \<Rightarrow> Inr (case r of None \<Rightarrow> events | Some e \<Rightarrow> e # events)))"

text \<open>
  \<^verbatim>\<open>trades.sort\<close> with the comparator on timestamps is a stable sort by timestamp;
  \<^verbatim>\<open>medianWallets\<close> is computed and never read.
\<close>

definition detectAnomalies :: "trade list \<Rightarrow> market \<Rightarrow> error + event list" where
  "detectAnomalies trades0 market =
     (let trades = sort_key timestamp trades0;
          stats = allStats trades
      in if length stats = 0 then Inr []
         else let medianWallets = median (map (\<lambda>s. real (wallets s)) stats);
                  medianVolume = median (map volume stats);
                  medianTradeSize = median (map notional trades)
              in case detect_loop medianVolume medianTradeSize market trades
                        [0..<length trades] of
                   Inl err \<Rightarrow> Inl err
                 | Inr events \<Rightarrow> Inr (dedup events))"

subsection \<open>analyzeAllMarkets, for one market\<close>

text \<open>
  The function that \<^verbatim>\<open>analyzeAllMarkets\<close> maps over a batch, applied to the trades that
  \<^verbatim>\<open>fetchTrades\<close> returned for the market.
\<close>

definition analyzeMarket :: "trade list \<Rightarrow> market \<Rightarrow> error + event list" where
  "analyzeMarket trades market =
     (if length trades < 10 then Inr [] else detectAnomalies trades market)"

subsection \<open>The scorer as the specification words it\<close>

text \<open>
  A bonus category is a table of tiers (threshold, bonus). Of the tiers whose threshold
  the input exceeds, only the one with the highest threshold applies; with no such tier
  the category contributes nothing.
\<close>

definition spec_tier_bonus :: "(real \<times> real) list \<Rightarrow> real \<Rightarrow> real" where
  "spec_tier_bonus tiers x =
     (let matching = filter (\<lambda>(threshold, bonus). x > threshold) tiers
      in if matching = [] then 0
         else the (map_of matching (Max (set (map fst matching)))))"

definition spec_multi_kind_bonus :: "nat \<Rightarrow> real" where
  "spec_multi_kind_bonus n = (if n \<ge> 3 then 10 else if n = 2 then 5 else 0)"

definition spec_components :: "params \<Rightarrow> real list" where
  "spec_components p =
     [sum_list (map kind_weight (anomalies p)),
      spec_multi_kind_bonus (length (anomalies p)),
      spec_tier_bonus [(20, 20), (10, 15), (5, 10), (3, 5)] (volumeRatio p),
      spec_tier_bonus [(50, 15), (30, 12), (20, 8), (10, 5)] (tradeSizeRatio p),
      spec_tier_bonus [(20, 10), (10, 7), (5, 4)] (priceRangePct p),
      spec_tier_bonus [(0.95, 10), (0.9, 7), (0.85, 4)] (imbalanceRatio p),
      spec_tier_bonus [(10000, 5), (5000, 3), (1000, 1)] (marketLiquidity p)]"

definition spec_score :: "params \<Rightarrow> int" where
  "spec_score p = min 100 (js_round (sum_list (spec_components p)))"

text \<open>
  The same tiers as a chain of comparisons in the order of the table: the first tier
  whose threshold the input exceeds gives the bonus.
\<close>

fun tier_chain :: "(real \<times> real) list \<Rightarrow> real \<Rightarrow> real" where
  "tier_chain [] x = 0"
| "tier_chain ((threshold, bonus) # tiers) x = (if x > threshold then bonus else tier_chain tiers x)"

subsection \<open>Sample data\<close>

definition sample_event :: "int \<Rightarrow> event" where
  "sample_event ts =
     \<lparr>e_timestamp = ts, e_market = ''Q'', e_marketType = ''general'', e_conditionId = ''0xabc'',
      e_slug = ''q'', e_anomalies = [''imbalance''], e_walletCount = 1, e_totalVolume = 150,
      e_netVolume = 150, e_volumeRatio = 1, e_tradeSize = 50, e_priceRangePct = 0,
      e_isBuy = True, e_tradeCount = 3, e_score = 18, e_priceChange = None\<rparr>"

definition sample_trade :: "int \<Rightarrow> real \<Rightarrow> real \<Rightarrow> trade" where
  "sample_trade ts sz pr =
     \<lparr>timestamp = ts, proxyWallet = ''0xw1'', side = ''BUY'', tsize = Some sz, price = Some pr\<rparr>"

definition sample_market :: market where
  "sample_market =
     \<lparr>conditionId = ''0xabc'', question = ''Q'', slug = ''q'', mtype = ''general'',
      volume24h = 50000, liquidity = 12000\<rparr>"

definition burst3 :: "trade list" where
  "burst3 = [sample_trade 1020 100 (1/2), sample_trade 1000 100 (1/2), sample_trade 1010 100 (1/2)]"

definition sparse10 :: "trade list" where
  "sparse10 = map (\<lambda>k. sample_trade (1000 * k) 100 (1/2)) [1, 2, 3, 4, 5, 6, 7, 8, 9, 10]"


definition zero_future :: "trade list" where
  "zero_future = [sample_trade 100 10 (1/2), sample_trade 160 10 0]"

definition rising :: "trade list" where
  "rising = [sample_trade 100 10 (1/2), sample_trade 160 10 (3/5), sample_trade 900 10 (7/10)]"

definition buys100 :: "trade list" where
  "buys100 = map (\<lambda>k. sample_trade (1000 + k) 200 (1/2)) [0, 1, 2, 3, 4]"

definition buys16 :: "trade list" where
  "buys16 = map (\<lambda>k. sample_trade (1000 + k) 32 (1/2)) [0, 1, 2, 3, 4]"

definition sample_params :: "real \<Rightarrow> params" where
  "sample_params vr =
     \<lparr>anomalies = [''imbalance''], volumeRatio = vr, tradeSizeRatio = 1, priceRangePct = 0,
      tradeCount = 3, imbalanceRatio = 1 / 2, marketLiquidity = 500, marketVolume = 50000\<rparr>"

section \<open>Auxiliary facts\<close>

subsection \<open>The scorer\<close>

lemma foldl_plus_sum_list:
  "foldl (\<lambda>s x. s + f x) a xs = (a::real) + sum_list (map f xs)"
  by (induction xs arbitrary: a) auto

lemma kind_weight_ge_5: "5 \<le> kind_weight k"
  by (auto simp: kind_weight_def typeWeights_def split: option.splits if_splits)

lemma sum_kind_weight_nonneg: "0 \<le> sum_list (map kind_weight ks)"
proof (induction ks)
  case Nil
  show ?case by simp
next
  case (Cons k ks)
  have "0 \<le> kind_weight k" using kind_weight_ge_5 [of k] by linarith
  with Cons show ?case by simp
qed

lemma sum_kind_weight_ge_5: "ks \<noteq> [] \<Longrightarrow> 5 \<le> sum_list (map kind_weight ks)"
proof (cases ks)
  case Nil
  assume "ks \<noteq> []"
  with Nil show ?thesis by simp
next
  case (Cons k ks')
  have "5 \<le> kind_weight k" by (rule kind_weight_ge_5)
  moreover have "0 \<le> sum_list (map kind_weight ks')" by (rule sum_kind_weight_nonneg)
  ultimately show ?thesis using Cons by simp
qed

lemma if_add_0: "(if c then s + a else s) = s + (if c then a else (0::real))"
  by simp

lemma if_add_r: "(if c then s + a else s + r) = s + (if c then a else (r::real))"
  by simp

lemma score_chain:
  "calculateAnomalyScore p =
     min 100 (js_round (sum_list (map kind_weight (anomalies p))
       + (if length (anomalies p) \<ge> 3 then 10 else if length (anomalies p) \<ge> 2 then 5 else 0)
       + tier_chain [(20, 20), (10, 15), (5, 10), (3, 5)] (volumeRatio p)
       + tier_chain [(50, 15), (30, 12), (20, 8), (10, 5)] (tradeSizeRatio p)
       + tier_chain [(20, 10), (10, 7), (5, 4)] (priceRangePct p)
       + tier_chain [(0.95, 10), (0.9, 7), (0.85, 4)] (imbalanceRatio p)
       + tier_chain [(10000, 5), (5000, 3), (1000, 1)] (marketLiquidity p)))"
  unfolding calculateAnomalyScore_def Let_def tier_chain.simps
  by (simp only: if_add_0 if_add_r foldl_plus_sum_list add_0)


lemma tier_chain_none: "\<forall>(t, b) \<in> set T. x \<le> t \<Longrightarrow> tier_chain T x = 0"
  by (induction T) auto

lemma spec_tier_bonus_skip:
  "\<not> x > t \<Longrightarrow> spec_tier_bonus ((t, b) # T) x = spec_tier_bonus T x"
  by (simp add: spec_tier_bonus_def)

lemma spec_tier_bonus_hit:
  assumes "x > t" "\<forall>t' \<in> set (map fst T). t' < t"
  shows "spec_tier_bonus ((t, b) # T) x = b"
proof -
  let ?m = "filter (\<lambda>(threshold, bonus). x > threshold) T"
  have "set (map fst ?m) \<subseteq> set (map fst T)" by auto
  with assms(2) have "\<forall>t' \<in> set (map fst ?m). t' \<le> t" by fastforce
  then have "Max (insert t (set (map fst ?m))) = t"
    by (intro Max_eqI) auto
  with assms(1) show ?thesis by (simp add: spec_tier_bonus_def)
qed

lemma spec_tier_bonus_chain:
  "sorted_wrt (>) (map fst T) \<Longrightarrow> spec_tier_bonus T x = tier_chain T x"
proof (induction T)
  case Nil
  show ?case by (simp add: spec_tier_bonus_def)
next
  case (Cons a T)
  obtain t b where a: "a = (t, b)" by (cases a)
  show ?case
  proof (cases "x > t")
    case True
    from Cons.prems a have "\<forall>t' \<in> set (map fst T). t' < t" by auto
    with True a show ?thesis by (simp add: spec_tier_bonus_hit)
  next
    case False
    with Cons a show ?thesis by (simp add: spec_tier_bonus_skip)
  qed
qed

lemma tier_chain_le:
  "\<forall>(t, b') \<in> set T. b' \<le> b \<Longrightarrow> 0 \<le> b \<Longrightarrow> tier_chain T x \<le> b"
  by (induction T) auto

lemma tier_chain_nonneg: "\<forall>(t, b) \<in> set T. 0 \<le> b \<Longrightarrow> 0 \<le> tier_chain T x"
  by (induction T) auto

lemma tier_chain_mono:
  "sorted_wrt (\<ge>) (map snd T) \<Longrightarrow> \<forall>(t, b) \<in> set T. 0 \<le> b \<Longrightarrow> x \<le> y \<Longrightarrow>
   tier_chain T x \<le> tier_chain T y"
proof (induction T)
  case Nil
  show ?case by simp
next
  case (Cons a T)
  obtain t b where a: "a = (t, b)" by (cases a)
  show ?case
  proof (cases "y > t")
    case True
    from Cons.prems a have "\<forall>(t', b') \<in> set T. b' \<le> b" "0 \<le> b" by auto
    then have "tier_chain T x \<le> b" by (rule tier_chain_le)
    with True a show ?thesis by simp
  next
    case False
    with Cons a show ?thesis by auto
  qed
qed

lemma js_round_mono: "x \<le> y \<Longrightarrow> js_round x \<le> js_round y"
  by (simp add: js_round_def floor_mono)

lemma js_round_nonneg: "0 \<le> x \<Longrightarrow> 0 \<le> js_round x"
  by (simp add: js_round_def)

lemma js_round_ge_5: "5 \<le> x \<Longrightarrow> 5 \<le> js_round x"
  unfolding js_round_def by linarith

lemma score_sum_nonneg:
  "0 \<le> sum_list (map kind_weight (anomalies p))
       + (if length (anomalies p) \<ge> 3 then 10 else if length (anomalies p) \<ge> 2 then 5 else 0)
       + tier_chain [(20, 20), (10, 15), (5, 10), (3, 5)] (volumeRatio p)
       + tier_chain [(50, 15), (30, 12), (20, 8), (10, 5)] (tradeSizeRatio p)
       + tier_chain [(20, 10), (10, 7), (5, 4)] (priceRangePct p)
       + tier_chain [(0.95, 10), (0.9, 7), (0.85, 4)] (imbalanceRatio p)
       + tier_chain [(10000, 5), (5000, 3), (1000, 1)] (marketLiquidity p)"
  (is "0 \<le> ?k + ?m + ?a + ?b + ?c + ?d + ?e")
proof -
  have "0 \<le> ?k" by (rule sum_kind_weight_nonneg)
  moreover have "0 \<le> ?m" by simp
  moreover have "0 \<le> ?a" by (rule tier_chain_nonneg) simp
  moreover have "0 \<le> ?b" by (rule tier_chain_nonneg) simp
  moreover have "0 \<le> ?c" by (rule tier_chain_nonneg) simp
  moreover have "0 \<le> ?d" by (rule tier_chain_nonneg) simp
  moreover have "0 \<le> ?e" by (rule tier_chain_nonneg) simp
  ultimately show ?thesis by linarith
qed

lemma score_eq_spec: "calculateAnomalyScore p = spec_score p"
proof -
  have "spec_multi_kind_bonus n = (if n \<ge> 3 then 10 else if n \<ge> 2 then 5 else 0)" for n
    by (auto simp: spec_multi_kind_bonus_def)
  then show ?thesis
    by (simp add: score_chain spec_score_def spec_components_def spec_tier_bonus_chain
        add.assoc del: tier_chain.simps)
qed

lemma score_bounds: "0 \<le> calculateAnomalyScore p \<and> calculateAnomalyScore p \<le> 100"
  using js_round_nonneg [OF score_sum_nonneg [of p]] by (simp add: score_chain del: tier_chain.simps)

lemma score_mono:
  assumes "anomalies q = anomalies p"
    and "volumeRatio p \<le> volumeRatio q" and "tradeSizeRatio p \<le> tradeSizeRatio q"
    and "priceRangePct p \<le> priceRangePct q" and "imbalanceRatio p \<le> imbalanceRatio q"
    and "marketLiquidity p \<le> marketLiquidity q"
  shows "calculateAnomalyScore p \<le> calculateAnomalyScore q"
proof -
  have a: "tier_chain [(20, 20), (10, 15), (5, 10), (3, 5)] (volumeRatio p)
        \<le> tier_chain [(20, 20), (10, 15), (5, 10), (3, 5)] (volumeRatio q)"
    using assms(2) by (intro tier_chain_mono) simp_all
  have b: "tier_chain [(50, 15), (30, 12), (20, 8), (10, 5)] (tradeSizeRatio p)
        \<le> tier_chain [(50, 15), (30, 12), (20, 8), (10, 5)] (tradeSizeRatio q)"
    using assms(3) by (intro tier_chain_mono) simp_all
  have c: "tier_chain [(20, 10), (10, 7), (5, 4)] (priceRangePct p)
        \<le> tier_chain [(20, 10), (10, 7), (5, 4)] (priceRangePct q)"
    using assms(4) by (intro tier_chain_mono) simp_all
  have d: "tier_chain [(0.95, 10), (0.9, 7), (0.85, 4)] (imbalanceRatio p)
        \<le> tier_chain [(0.95, 10), (0.9, 7), (0.85, 4)] (imbalanceRatio q)"
    using assms(5) by (intro tier_chain_mono) simp_all
  have e: "tier_chain [(10000, 5), (5000, 3), (1000, 1)] (marketLiquidity p)
        \<le> tier_chain [(10000, 5), (5000, 3), (1000, 1)] (marketLiquidity q)"
    using assms(6) by (intro tier_chain_mono) simp_all
  show ?thesis
    unfolding score_chain assms(1)
    by (intro min.mono order_refl js_round_mono add_mono a b c d e)
qed

lemma score_ge_5: "anomalies p \<noteq> [] \<Longrightarrow> 5 \<le> calculateAnomalyScore p"
proof -
  assume ne: "anomalies p \<noteq> []"
  let ?k = "sum_list (map kind_weight (anomalies p))"
  have k: "5 \<le> ?k" using ne by (rule sum_kind_weight_ge_5)
  have "0 \<le> tier_chain [(20, 20), (10, 15), (5, 10), (3, 5)] (volumeRatio p)"
       "0 \<le> tier_chain [(50, 15), (30, 12), (20, 8), (10, 5)] (tradeSizeRatio p)"
       "0 \<le> tier_chain [(20, 10), (10, 7), (5, 4)] (priceRangePct p)"
       "0 \<le> tier_chain [(0.95, 10), (0.9, 7), (0.85, 4)] (imbalanceRatio p)"
       "0 \<le> tier_chain [(10000, 5), (5000, 3), (1000, 1)] (marketLiquidity p)"
    by (rule tier_chain_nonneg, simp)+
  moreover have "(0::real) \<le> (if length (anomalies p) \<ge> 3 then 10 else if length (anomalies p) \<ge> 2 then 5 else 0)"
    by simp
  ultimately have "5 \<le> ?k
       + (if length (anomalies p) \<ge> 3 then 10 else if length (anomalies p) \<ge> 2 then 5 else 0)
       + tier_chain [(20, 20), (10, 15), (5, 10), (3, 5)] (volumeRatio p)
       + tier_chain [(50, 15), (30, 12), (20, 8), (10, 5)] (tradeSizeRatio p)
       + tier_chain [(20, 10), (10, 7), (5, 4)] (priceRangePct p)
       + tier_chain [(0.95, 10), (0.9, 7), (0.85, 4)] (imbalanceRatio p)
       + tier_chain [(10000, 5), (5000, 3), (1000, 1)] (marketLiquidity p)"
    using k by linarith
  then show ?thesis
    using js_round_ge_5 by (simp add: score_chain del: tier_chain.simps)
qed

subsection \<open>Forward price change and detection\<close>

lemma filter_drop_indices:
  "filter Q (drop k xs) = map (nth xs) (filter (\<lambda>j. Q (xs ! j)) [k..<length xs])"
proof -
  have "drop k (map (nth xs) [0..<length xs]) = map (nth xs) (drop k [0..<length xs])"
    by (rule drop_map)
  then have "drop k xs = map (nth xs) [k..<length xs]"
    by (simp add: map_nth)
  then show ?thesis by (simp add: filter_map comp_def)
qed

lemma calculatePriceChange_indices:
  assumes "i < length trades"
  shows "calculatePriceChange trades i T =
     (let P = or_else (price (trades ! i)) 0;
          later = filter (\<lambda>j. timestamp (trades ! j) \<le> T + 300) [Suc i..<length trades]
      in if P = 0 \<or> later = [] then Inr None
         else let L = or_else (price (trades ! last later)) P;
                  c = (L - P) / P * 100
              in Inr (Some \<lparr>change = c,
                    direction = (if c > 0 then ''up'' else if c < 0 then ''down'' else ''flat''),
                    futurePrice = L, eventPrice = P, pc_tradeCount = length later\<rparr>))"
proof -
  let ?later = "filter (\<lambda>j. timestamp (trades ! j) \<le> T + 300) [Suc i..<length trades]"
  have fut: "filter (\<lambda>t. timestamp t \<le> T + 300) (drop (Suc i) trades) = map (nth trades) ?later"
    by (rule filter_drop_indices)
  show ?thesis
  proof (cases "?later = []")
    case True
    with assms show ?thesis
      by (simp add: calculatePriceChange_def Let_def futureWindow_def fut)
  next
    case False
    then have "length ?later - 1 < length ?later" by (cases ?later) simp_all
    then have "map (nth trades) ?later ! (length ?later - 1) = trades ! last ?later"
      using False by (simp add: last_conv_nth)
    with assms False show ?thesis
      by (simp add: calculatePriceChange_def Let_def futureWindow_def fut)
  qed
qed

lemma calculatePriceChange_no_error:
  "i < length trades \<Longrightarrow> \<exists>r. calculatePriceChange trades i T = Inr r"
  by (simp add: calculatePriceChange_def Let_def)

lemma detect_at_cases:
  fixes mv mt m trades i
  defines "w \<equiv> window_at trades i"
  defines "a \<equiv> classify mv mt (window_at trades i) (trades ! i)"
  defines "c \<equiv> calculatePriceChange trades i (timestamp (trades ! i))"
  shows "((length w < 3 \<or> a = []) \<and> detect_at mv mt m trades i = Inr None)
       \<or> (3 \<le> length w \<and> a \<noteq> [] \<and> (\<exists>err. c = Inl err \<and> detect_at mv mt m trades i = Inl err))
       \<or> (3 \<le> length w \<and> a \<noteq> [] \<and> (\<exists>pc e. c = Inr pc \<and> detect_at mv mt m trades i = Inr (Some e)
             \<and> e_anomalies e = a \<and> e_priceChange e = pc \<and> 5 \<le> e_score e))"
proof (cases "length w < 3")
  case True
  then show ?thesis
    unfolding w_def by (simp add: detect_at_def Let_def split del: if_split)
next
  case long: False
  show ?thesis
  proof (cases "a = []")
    case True
    with long show ?thesis
      unfolding w_def a_def by (simp add: detect_at_def Let_def split del: if_split)
  next
    case ne: False
    show ?thesis
    proof (cases c)
      case (Inl err)
      with long ne show ?thesis
        unfolding w_def a_def c_def by (simp add: detect_at_def Let_def split del: if_split)
    next
      case (Inr pc)
      with long ne have "\<exists>e. detect_at mv mt m trades i = Inr (Some e)
             \<and> e_anomalies e = a \<and> e_priceChange e = pc \<and> 5 \<le> e_score e"
        unfolding w_def a_def c_def
        apply (simp add: detect_at_def Let_def split del: if_split)
        apply (rule score_ge_5)
        apply simp
        done
      then obtain e where "detect_at mv mt m trades i = Inr (Some e)" "e_anomalies e = a"
        "e_priceChange e = pc" "5 \<le> e_score e" by blast
      with long ne Inr show ?thesis by (intro disjI2 conjI exI [of _ pc] exI [of _ e]) simp_all
    qed
  qed
qed




lemma detect_at_no_error:
  "i < length trades \<Longrightarrow> \<exists>r. detect_at mv mt m trades i = Inr r"
  using calculatePriceChange_no_error [of i trades "timestamp (trades ! i)"]
        detect_at_cases [of trades i mv mt m]
  by (elim disjE exE conjE) simp_all

lemma detect_at_event:
  assumes "detect_at mv mt m trades i = Inr (Some e)"
  shows "e_anomalies e = classify mv mt (window_at trades i) (trades ! i)
    \<and> e_anomalies e \<noteq> [] \<and> 3 \<le> length (window_at trades i) \<and> 5 \<le> e_score e"
proof -
  from assms detect_at_cases [of trades i mv mt m]
  show ?thesis by (elim disjE exE conjE) simp_all
qed

lemma detect_at_flagged:
  assumes "i < length trades" "3 \<le> length (window_at trades i)"
    "classify mv mt (window_at trades i) (trades ! i) \<noteq> []"
  shows "\<exists>e. detect_at mv mt m trades i = Inr (Some e)"
  using assms calculatePriceChange_no_error [of i trades "timestamp (trades ! i)"]
        detect_at_cases [of trades i mv mt m]
  by (elim disjE exE conjE) simp_all

lemma detect_loop_events:
  "\<forall>i \<in> set is. i < length trades \<Longrightarrow>
   \<exists>evs. detect_loop mv mt m trades is = Inr evs
     \<and> (\<forall>e \<in> set evs. \<exists>i \<in> set is. detect_at mv mt m trades i = Inr (Some e))"
proof (induction "is")
  case Nil
  show ?case by simp
next
  case (Cons i "is")
  from Cons.prems obtain r where r: "detect_at mv mt m trades i = Inr r"
    using detect_at_no_error [of i trades mv mt m] by auto
  from Cons obtain evs where evs: "detect_loop mv mt m trades is = Inr evs"
    "\<forall>e \<in> set evs. \<exists>i \<in> set is. detect_at mv mt m trades i = Inr (Some e)"
    by auto
  show ?case
  proof (cases r)
    case None
    with r evs show ?thesis by auto
  next
    case (Some e)
    with r evs show ?thesis by auto
  qed
qed

lemma set_dedup_loop: "set (dedup_loop l xs) \<subseteq> set xs"
  by (induction xs arbitrary: l) auto

lemma allStats_empty:
  "allStats trades = [] \<longleftrightarrow> (\<forall>i < length trades. length (window_at trades i) < 3)"
proof -
  have "stat_at trades i = None \<longleftrightarrow> length (window_at trades i) < 3" for i
    by (auto simp: stat_at_def Let_def)
  then show ?thesis
    by (auto simp: allStats_def List.map_filter_def filter_empty_conv)
qed




lemma detectAnomalies_events:
  "\<exists>evs. detectAnomalies trades market = Inr evs
     \<and> (\<forall>e \<in> set evs. e_anomalies e \<noteq> [] \<and> 5 \<le> e_score e)"
proof -
  define ts where "ts = sort_key timestamp trades"
  define mv where "mv = median (map volume (allStats ts))"
  define mt where "mt = median (map notional ts)"
  have "\<forall>i \<in> set [0..<length ts]. i < length ts" by simp
  from detect_loop_events [OF this, of mv mt market]
  obtain evs where evs: "detect_loop mv mt market ts [0..<length ts] = Inr evs"
    and src: "\<forall>e \<in> set evs. \<exists>i \<in> set [0..<length ts]. detect_at mv mt market ts i = Inr (Some e)"
    by blast
  have ok: "\<forall>e \<in> set (dedup evs). e_anomalies e \<noteq> [] \<and> 5 \<le> e_score e"
  proof
    fix e assume "e \<in> set (dedup evs)"
    then have "e \<in> set evs" using set_dedup_loop [of 0 evs] by (auto simp: dedup_def)
    with src obtain i where "detect_at mv mt market ts i = Inr (Some e)" by blast
    from detect_at_event [OF this] show "e_anomalies e \<noteq> [] \<and> 5 \<le> e_score e" by blast
  qed
  show ?thesis
  proof (cases "allStats ts = []")
    case True
    then have "detectAnomalies trades market = Inr []"
      by (simp add: detectAnomalies_def ts_def)
    then show ?thesis by simp
  next
    case False
    with evs have "detectAnomalies trades market = Inr (dedup evs)"
      by (simp add: detectAnomalies_def Let_def ts_def mv_def mt_def)
    with ok show ?thesis by blast
  qed
qed

subsection \<open>The deduplicator\<close>

lemma dedup_loop_append:
  "dedup_loop l (xs @ ys) =
     dedup_loop l xs @
     dedup_loop (if dedup_loop l xs = [] then l else e_timestamp (last (dedup_loop l xs))) ys"
  by (induction xs arbitrary: l) auto

lemma dedup_loop_chain:
  "sorted_wrt (\<lambda>a b. e_timestamp b - e_timestamp a \<ge> 5) (dedup_loop l xs) \<and>
   (\<forall>e \<in> set (dedup_loop l xs). e_timestamp e - l \<ge> 5)"
proof (induction xs arbitrary: l)
  case Nil
  then show ?case by simp
next
  case (Cons x xs)
  show ?case
  proof (cases "e_timestamp x - l \<ge> 5")
    case True
    from Cons.IH [of "e_timestamp x"] True show ?thesis by fastforce
  next
    case False
    with Cons.IH [of l] show ?thesis by simp
  qed
qed

lemma dedup_loop_fixed:
  "sorted_wrt (\<lambda>a b. e_timestamp b - e_timestamp a \<ge> 5) xs \<Longrightarrow>
   \<forall>e \<in> set xs. e_timestamp e - l \<ge> 5 \<Longrightarrow> dedup_loop l xs = xs"
  by (induction xs arbitrary: l) auto

subsection \<open>Sorting, windows of one side, and the sample data evaluated\<close>

lemma sort_sorted_perm: "sorted s \<Longrightarrow> mset s = mset xs \<Longrightarrow> sort xs = s"
  by (simp add: properties_for_sort)

lemma sum_list_const_notional:
  "\<forall>x \<in> set w. notional x = c \<Longrightarrow> sum_list (map notional w) = c * real (length w)"
  by (induction w) (simp_all add: algebra_simps)

lemma all_buy_volumes:
  assumes "\<forall>x \<in> set w. side x = ''BUY''"
  shows "buyVol w = sum_list (map notional w)" and "sellVol w = 0"
proof -
  from assms have "filter (\<lambda>x. side x = ''BUY'') w = w" by (simp add: filter_id_conv)
  then show "buyVol w = sum_list (map notional w)"
    by (simp add: buyVol_def foldl_plus_sum_list)
  from assms have "filter (\<lambda>x. side x = ''SELL'') w = []" by (simp add: filter_empty_conv)
  then show "sellVol w = 0" by (simp add: sellVol_def)
qed

lemma imbalance_in_classify:
  "''imbalance'' \<in> set (classify mv mt w t) \<longleftrightarrow>
     totalVol w > 100 \<and> \<bar>netVol w\<bar> / totalVol w > 0.85"
  by (simp add: classify_def)

lemma buys100_window: "window_at buys100 4 = buys100"
  by code_simp

lemma buys100_sides: "\<forall>x \<in> set buys100. side x = ''BUY'' \<and> notional x = 100"
  by (simp add: buys100_def sample_trade_def notional_def)

lemma buys16_total: "(\<forall>x \<in> set buys16. side x = ''BUY'') \<and> totalVol buys16 = 80"
  by (simp add: buys16_def sample_trade_def notional_def totalVol_def buyVol_def sellVol_def)

lemma sparse10_stats: "allStats (sort_key timestamp sparse10) = []"
  by code_simp

lemma burst3_events:
  "detectAnomalies burst3 sample_market =
     Inr [\<lparr>e_timestamp = 1020, e_market = ''Q'', e_marketType = ''general'',
           e_conditionId = ''0xabc'', e_slug = ''q'', e_anomalies = [''imbalance''],
           e_walletCount = 1, e_totalVolume = 150, e_netVolume = 150, e_volumeRatio = 1,
           e_tradeSize = 50, e_priceRangePct = 0, e_isBuy = True, e_tradeCount = 3,
           e_score = 23, e_priceChange = None\<rparr>]"
  by code_simp


section \<open>The claims\<close>

subsection \<open>C1: what the deduplicator keeps\<close>

text \<open>
  Claim C1, as amended. The gate is measured from \<^verbatim>\<open>lastTs\<close>, which starts at \<open>0\<close>.
  For every non-empty event list whose first event has a timestamp of at least 5, the
  deduplicator keeps the first event; each later event \<open>x\<close>, coming after the events
  \<open>e # pre\<close>, is kept exactly when its timestamp is at least 5 seconds after the
  timestamp of the last event kept so far, and is dropped otherwise; what has been decided
  for a prefix of the list is not changed by the events after it. In particular, of two
  events 3 seconds apart only the first survives.
\<close>

theorem dedup_gate:
  "(5 \<le> e_timestamp e \<longrightarrow> dedup (e # es) \<noteq> [] \<and> hd (dedup (e # es)) = e)
   \<and> (5 \<le> e_timestamp e \<longrightarrow>
        dedup ((e # pre) @ [x]) =
          (if e_timestamp x - e_timestamp (last (dedup (e # pre))) \<ge> 5
           then dedup (e # pre) @ [x] else dedup (e # pre)))
   \<and> prefix (dedup evs) (dedup (evs @ later))
   \<and> (5 \<le> e_timestamp e \<and> e_timestamp e' - e_timestamp e = 3 \<longrightarrow> dedup [e, e'] = [e])"
proof (intro conjI impI)
  assume "5 \<le> e_timestamp e"
  then show "dedup (e # es) \<noteq> []" "hd (dedup (e # es)) = e"
    by (simp_all add: dedup_def)
next
  assume e: "5 \<le> e_timestamp e"
  then have ne: "dedup_loop 0 (e # pre) \<noteq> []" by simp
  have "dedup_loop 0 ((e # pre) @ [x]) =
      dedup_loop 0 (e # pre) @ dedup_loop (e_timestamp (last (dedup_loop 0 (e # pre)))) [x]"
    using ne by (simp only: dedup_loop_append [of 0 "e # pre" "[x]"] if_False)
  then show "dedup ((e # pre) @ [x]) =
          (if e_timestamp x - e_timestamp (last (dedup (e # pre))) \<ge> 5
           then dedup (e # pre) @ [x] else dedup (e # pre))"
    by (simp add: dedup_def)
next
  show "prefix (dedup evs) (dedup (evs @ later))"
    unfolding dedup_def by (subst dedup_loop_append) simp
next
  assume "5 \<le> e_timestamp e \<and> e_timestamp e' - e_timestamp e = 3"
  then show "dedup [e, e'] = [e]" by (simp add: dedup_def)
qed

text \<open>The theorem at the events with timestamps 10, 13 and 15.\<close>

theorem dedup_gate_witness:
  "5 \<le> e_timestamp (sample_event 10)
   \<and> hd (dedup [sample_event 10, sample_event 13, sample_event 15]) = sample_event 10
   \<and> dedup [sample_event 10, sample_event 13, sample_event 15] = [sample_event 10, sample_event 15]
   \<and> e_timestamp (sample_event 13) - e_timestamp (sample_event 10) = 3
   \<and> dedup [sample_event 10, sample_event 13] = [sample_event 10]"
  using dedup_gate [of "sample_event 10" "[sample_event 13, sample_event 15]"
      "[sample_event 13]" "sample_event 15" "[]" "[]" "sample_event 13"]
  by (simp add: sample_event_def dedup_def)

text \<open>
  C1 as stated, for every non-empty list, fails: a first event with timestamp 3 is inside
  the gate that starts at \<open>0\<close>, and the deduplicator drops it.
\<close>

theorem dedup_first_event_dropped:
  "[sample_event 3] \<noteq> [] \<and> dedup [sample_event 3] = []"
  by (simp add: dedup_def sample_event_def)

subsection \<open>C2: the forward price-change record\<close>

text \<open>
  Claim C2, as amended. For a trade at index \<open>i\<close> of the array, with price \<open>P\<close>
  (\<open>0\<close> when the field is missing) and the time \<open>T\<close> passed by the caller, let \<open>later\<close>
  be the indices above \<open>i\<close> of the trades with timestamp at most \<open>T + 300\<close>. When
  \<open>P = 0\<close> or there is no such index the result is \<^verbatim>\<open>null\<close>. Otherwise the record
  reports \<open>change = (L - P) / P * 100\<close>, where \<open>L\<close> is the price of the trade at the last
  such index, or \<open>P\<close> itself when that price is \<open>0\<close> or missing; the direction is
  \<open>up\<close>, \<open>down\<close> or \<open>flat\<close> by the sign of the change; and the record carries
  \<open>P\<close>, \<open>L\<close> and the number of such indices.
\<close>

theorem price_change_record:
  "i < length trades \<longrightarrow>
     (let P = or_else (price (trades ! i)) 0;
          later = filter (\<lambda>j. timestamp (trades ! j) \<le> T + 300) [Suc i..<length trades]
      in (P = 0 \<or> later = [] \<longrightarrow> calculatePriceChange trades i T = Inr None)
       \<and> (P \<noteq> 0 \<and> later \<noteq> [] \<longrightarrow>
            (let L = or_else (price (trades ! last later)) P;
                 c = (L - P) / P * 100
             in calculatePriceChange trades i T =
                  Inr (Some \<lparr>change = c,
                        direction = (if c > 0 then ''up'' else if c < 0 then ''down'' else ''flat''),
                        futurePrice = L, eventPrice = P, pc_tradeCount = length later\<rparr>))))"
  by (simp add: calculatePriceChange_indices Let_def)

text \<open>
  The theorem on three sample trades: a record for the first (one later trade within 300
  seconds, price up by 20 percent), and \<^verbatim>\<open>null\<close> for the last.
\<close>

theorem price_change_record_witness:
  "(0::nat) < length rising
   \<and> calculatePriceChange rising 0 100 =
       Inr (Some \<lparr>change = 20, direction = ''up'', futurePrice = 3 / 5, eventPrice = 1 / 2,
             pc_tradeCount = 1\<rparr>)
   \<and> (2::nat) < length rising
   \<and> calculatePriceChange rising 2 900 = Inr None"
  using price_change_record [of 0 rising 100] price_change_record [of 2 rising 900]
  by (simp add: rising_def sample_trade_def Let_def)

text \<open>
  C2 as stated takes \<open>L\<close> to be the price of the last later trade in every case. On the
  sample where that price is \<open>0\<close> the claim gives \<open>change = -100\<close>, \<open>down\<close> and
  \<open>futurePrice = 0\<close>; the code returns \<open>change = 0\<close>, \<open>flat\<close> and
  \<open>futurePrice = P\<close>.
\<close>

theorem price_change_zero_future_counterexample:
  "calculatePriceChange zero_future 0 100 =
     Inr (Some \<lparr>change = 0, direction = ''flat'', futurePrice = 1 / 2, eventPrice = 1 / 2,
           pc_tradeCount = 1\<rparr>)
   \<and> price (zero_future ! 1) = Some 0
   \<and> calculatePriceChange zero_future 0 100 \<noteq>
     Inr (Some \<lparr>change = (0 - 1 / 2) / (1 / 2) * 100, direction = ''down'', futurePrice = 0,
           eventPrice = 1 / 2, pc_tradeCount = 1\<rparr>)"
  by (simp add: calculatePriceChange_def zero_future_def sample_trade_def futureWindow_def Let_def)

subsection \<open>C3: the imbalance kind\<close>

text \<open>
  Claim C3. At every index \<open>i\<close> whose window has at least 3 trades, the pass emits an
  event carrying the kind \<open>imbalance\<close> if and only if the total volume of the window is
  above 100 and the absolute net volume is above 0.85 of the total volume. A window of 5
  trades, all BUY, of notional 100 each has total volume 500 and ratio 1, and the kind is
  matched; an all-BUY window of total volume 80 has the same ratio 1, and the kind is not
  matched.
\<close>

theorem imbalance_flagged_iff:
  "(i < length trades \<and> 3 \<le> length (window_at trades i) \<longrightarrow>
      ((\<exists>e. detect_at mv mt market trades i = Inr (Some e) \<and> ''imbalance'' \<in> set (e_anomalies e))
       \<longleftrightarrow> totalVol (window_at trades i) > 100
           \<and> \<bar>netVol (window_at trades i)\<bar> / totalVol (window_at trades i) > 0.85))
   \<and> (length w = 5 \<and> (\<forall>x \<in> set w. side x = ''BUY'' \<and> notional x = 100) \<longrightarrow>
        totalVol w = 500 \<and> \<bar>netVol w\<bar> / totalVol w = 1
        \<and> ''imbalance'' \<in> set (classify mv mt w t))
   \<and> ((\<forall>x \<in> set w. side x = ''BUY'') \<and> totalVol w = 80 \<longrightarrow>
        \<bar>netVol w\<bar> / totalVol w = 1 \<and> ''imbalance'' \<notin> set (classify mv mt w t))"
proof (intro conjI impI)
  assume h: "i < length trades \<and> 3 \<le> length (window_at trades i)"
  let ?w = "window_at trades i"
  let ?a = "classify mv mt ?w (trades ! i)"
  show "(\<exists>e. detect_at mv mt market trades i = Inr (Some e) \<and> ''imbalance'' \<in> set (e_anomalies e))
       \<longleftrightarrow> totalVol ?w > 100 \<and> \<bar>netVol ?w\<bar> / totalVol ?w > 0.85"
  proof
    assume "\<exists>e. detect_at mv mt market trades i = Inr (Some e) \<and> ''imbalance'' \<in> set (e_anomalies e)"
    then obtain e where e: "detect_at mv mt market trades i = Inr (Some e)"
      and m: "''imbalance'' \<in> set (e_anomalies e)" by blast
    from detect_at_event [OF e] have "e_anomalies e = ?a" by blast
    with m have "''imbalance'' \<in> set ?a" by simp
    then show "totalVol ?w > 100 \<and> \<bar>netVol ?w\<bar> / totalVol ?w > 0.85"
      by (simp only: imbalance_in_classify)
  next
    assume "totalVol ?w > 100 \<and> \<bar>netVol ?w\<bar> / totalVol ?w > 0.85"
    then have m: "''imbalance'' \<in> set ?a" by (simp only: imbalance_in_classify)
    then have "?a \<noteq> []" by auto
    with h obtain e where e: "detect_at mv mt market trades i = Inr (Some e)"
      using detect_at_flagged [of i trades mv mt market] by blast
    from detect_at_event [OF e] have "e_anomalies e = ?a" by blast
    with m e show "\<exists>e. detect_at mv mt market trades i = Inr (Some e)
        \<and> ''imbalance'' \<in> set (e_anomalies e)" by auto
  qed
next
  assume h: "length w = 5 \<and> (\<forall>x \<in> set w. side x = ''BUY'' \<and> notional x = 100)"
  then have "sum_list (map notional w) = 100 * real (length w)"
    by (intro sum_list_const_notional) simp
  with h have b: "buyVol w = 500" and s: "sellVol w = 0"
    using all_buy_volumes [of w] by simp_all
  then show t: "totalVol w = 500" by (simp add: totalVol_def)
  from b s show r: "\<bar>netVol w\<bar> / totalVol w = 1" by (simp add: totalVol_def netVol_def)
  from t r show "''imbalance'' \<in> set (classify mv mt w t)"
    by (simp add: imbalance_in_classify)
next
  assume h: "(\<forall>x \<in> set w. side x = ''BUY'') \<and> totalVol w = 80"
  then have s: "sellVol w = 0" using all_buy_volumes(2) [of w] by simp
  with h have b: "buyVol w = 80" by (simp add: totalVol_def)
  from b s show "\<bar>netVol w\<bar> / totalVol w = 1" by (simp add: totalVol_def netVol_def)
  from h show "''imbalance'' \<notin> set (classify mv mt w t)"
    by (simp add: imbalance_in_classify)
qed

text \<open>
  The theorem on two sample windows of five BUY trades, of notional 100 each and of
  notional 16 each.
\<close>

theorem imbalance_flagged_iff_witness:
  "(4::nat) < length buys100 \<and> 3 \<le> length (window_at buys100 4)
   \<and> totalVol (window_at buys100 4) = 500
   \<and> (\<exists>e. detect_at 0 0 sample_market buys100 4 = Inr (Some e)
          \<and> ''imbalance'' \<in> set (e_anomalies e))
   \<and> totalVol buys16 = 80
   \<and> ''imbalance'' \<notin> set (classify 0 0 buys16 (buys16 ! 4))"
proof -
  have len: "length buys100 = 5" by (simp add: buys100_def)
  note thm1 = imbalance_flagged_iff [of 4 buys100 0 0 sample_market buys100 "buys100 ! 4"]
  note thm2 = imbalance_flagged_iff [of 4 buys100 0 0 sample_market buys16 "buys16 ! 4"]
  from thm1 len buys100_sides have t: "totalVol buys100 = 500"
    and r: "\<bar>netVol buys100\<bar> / totalVol buys100 = 1" by blast+
  from thm1 len t r have "\<exists>e. detect_at 0 0 sample_market buys100 4 = Inr (Some e)
          \<and> ''imbalance'' \<in> set (e_anomalies e)"
    by (simp add: buys100_window)
  moreover from thm2 buys16_total have "''imbalance'' \<notin> set (classify 0 0 buys16 (buys16 ! 4))"
    by blast
  ultimately show ?thesis using len t buys16_total by (simp add: buys100_window)
qed

subsection \<open>C4: the score is the clamped, rounded sum of the components\<close>

text \<open>
  Claim C4. For every input of the scorer, the score is \<open>min(100, round(sum))\<close> of the
  components of the specification, where in each bonus category only the highest matching
  tier applies; the score is an integer between 0 and 100; and the score does not decrease
  when any of the five bonus inputs (volume ratio, trade-size ratio, price-range percentage,
  imbalance ratio, market liquidity) grows while the kinds stay the same.
\<close>

theorem score_clamped_sum:
  "calculateAnomalyScore p = spec_score p
   \<and> 0 \<le> calculateAnomalyScore p \<and> calculateAnomalyScore p \<le> 100
   \<and> (anomalies q = anomalies p
        \<and> volumeRatio p \<le> volumeRatio q \<and> tradeSizeRatio p \<le> tradeSizeRatio q
        \<and> priceRangePct p \<le> priceRangePct q \<and> imbalanceRatio p \<le> imbalanceRatio q
        \<and> marketLiquidity p \<le> marketLiquidity q
       \<longrightarrow> calculateAnomalyScore p \<le> calculateAnomalyScore q)"
  using score_eq_spec [of p] score_bounds [of p] score_mono [of q p] by blast

text \<open>The theorem on a sample input whose volume ratio grows from 4 to 6.\<close>

theorem score_clamped_sum_witness:
  "calculateAnomalyScore (sample_params 4) = 13
   \<and> calculateAnomalyScore (sample_params 6) = 18
   \<and> spec_score (sample_params 4) = 13
   \<and> volumeRatio (sample_params 4) \<le> volumeRatio (sample_params 6)
   \<and> calculateAnomalyScore (sample_params 4) \<le> calculateAnomalyScore (sample_params 6)"
proof -
  have a: "calculateAnomalyScore (sample_params 4) = 13"
    by (simp add: calculateAnomalyScore_def sample_params_def kind_weight_def typeWeights_def
        js_round_def)
  have b: "calculateAnomalyScore (sample_params 6) = 18"
    by (simp add: calculateAnomalyScore_def sample_params_def kind_weight_def typeWeights_def
        js_round_def)
  have c: "anomalies (sample_params 6) = anomalies (sample_params 4)
        \<and> volumeRatio (sample_params 4) \<le> volumeRatio (sample_params 6)
        \<and> tradeSizeRatio (sample_params 4) \<le> tradeSizeRatio (sample_params 6)
        \<and> priceRangePct (sample_params 4) \<le> priceRangePct (sample_params 6)
        \<and> imbalanceRatio (sample_params 4) \<le> imbalanceRatio (sample_params 6)
        \<and> marketLiquidity (sample_params 4) \<le> marketLiquidity (sample_params 6)"
    by (simp add: sample_params_def)
  from score_clamped_sum [of "sample_params 4" "sample_params 6"] a b c show ?thesis
    by simp
qed

subsection \<open>C5: the median\<close>

text \<open>
  Claim C5. The median of the empty sequence is 0. For any ascending arrangement \<open>s\<close> of
  the input, the median is the middle element of \<open>s\<close> when the length is odd and the
  mean of the two central elements of \<open>s\<close> when the length is even and not zero. Two
  inputs that are permutations of each other have the same median.
\<close>

theorem median_spec:
  "median [] = 0
   \<and> (sorted s \<and> mset s = mset xs \<and> odd (length xs) \<longrightarrow> median xs = s ! (length xs div 2))
   \<and> (sorted s \<and> mset s = mset xs \<and> xs \<noteq> [] \<and> even (length xs) \<longrightarrow>
        median xs = (s ! (length xs div 2 - 1) + s ! (length xs div 2)) / 2)
   \<and> (mset xs = mset ys \<longrightarrow> median xs = median ys)"
proof (intro conjI impI)
  show "median [] = 0" by (simp add: median_def)
next
  assume a: "sorted s \<and> mset s = mset xs \<and> odd (length xs)"
  then have s: "sort xs = s" by (simp add: sort_sorted_perm)
  from a have "xs \<noteq> []" by auto
  with a s show "median xs = s ! (length xs div 2)"
    by (auto simp: median_def Let_def odd_iff_mod_2_eq_one)
next
  assume a: "sorted s \<and> mset s = mset xs \<and> xs \<noteq> [] \<and> even (length xs)"
  then have s: "sort xs = s" by (simp add: sort_sorted_perm)
  with a show "median xs = (s ! (length xs div 2 - 1) + s ! (length xs div 2)) / 2"
    by (auto simp: median_def Let_def)
next
  assume a: "mset xs = mset ys"
  then have "sort xs = sort ys" by (simp add: properties_for_sort)
  moreover from a have "length xs = length ys" by (rule mset_eq_length)
  ultimately show "median xs = median ys" by (simp add: median_def)
qed

text \<open>The theorem on a sequence of length 3, one of length 4, and a permutation.\<close>

theorem median_spec_witness:
  "median [3, 1, 2] = 2 \<and> median [4, 1, 3, 2] = 5 / 2 \<and> median [3, 1, 2] = median [2, 3, 1]"
  using median_spec [of "[1, 2, 3]" "[3, 1, 2]" "[2, 3, 1]"]
        median_spec [of "[1, 2, 3, 4]" "[4, 1, 3, 2]" "[4, 1, 3, 2]"]
  by simp

subsection \<open>C6: scenario C of the specification\<close>

text \<open>
  Claim C6. With the single kind \<open>price_move\<close>, volume ratio 0, trade-size ratio 0,
  price-range percentage 25, imbalance ratio 0 and market liquidity 12000, the score is
  exactly 25: 10 for the kind, 10 for the price range above 20, 5 for the liquidity above
  10000, and nothing from the other components.
\<close>

theorem scenario_c_score:
  "calculateAnomalyScore
     \<lparr>anomalies = [''price_move''], volumeRatio = 0, tradeSizeRatio = 0, priceRangePct = 25,
      tradeCount = tc, imbalanceRatio = 0, marketLiquidity = 12000, marketVolume = mv\<rparr> = 25
   \<and> spec_components
     \<lparr>anomalies = [''price_move''], volumeRatio = 0, tradeSizeRatio = 0, priceRangePct = 25,
      tradeCount = tc, imbalanceRatio = 0, marketLiquidity = 12000, marketVolume = mv\<rparr>
       = [10, 0, 0, 0, 10, 0, 5]"
  by (simp add: calculateAnomalyScore_def kind_weight_def typeWeights_def js_round_def
      spec_components_def spec_tier_bonus_chain spec_multi_kind_bonus_def)

subsection \<open>C7: too little data gives no events\<close>

text \<open>
  Claim C7. A market with fewer than 10 fetched trades, or whose sorted trades have no
  index with a window of at least 3 trades, yields the empty event list as a normal
  result (\<open>Inr\<close>), not an exception.
\<close>

theorem insufficient_data_no_events:
  "(length trades < 10 \<longrightarrow> analyzeMarket trades market = Inr [])
   \<and> ((\<forall>i < length trades. length (window_at (sort_key timestamp trades) i) < 3) \<longrightarrow>
        detectAnomalies trades market = Inr [] \<and> analyzeMarket trades market = Inr [])"
proof (intro conjI impI)
  assume "length trades < 10"
  then show "analyzeMarket trades market = Inr []" by (simp add: analyzeMarket_def)
next
  assume "\<forall>i < length trades. length (window_at (sort_key timestamp trades) i) < 3"
  then have "allStats (sort_key timestamp trades) = []" by (simp add: allStats_empty)
  then show d: "detectAnomalies trades market = Inr []" by (simp add: detectAnomalies_def)
  then show "analyzeMarket trades market = Inr []" by (simp add: analyzeMarket_def)
qed

text \<open>
  The theorem on three sample trades (fewer than 10) and on ten sample trades that are
  1000 seconds apart (no window of 3).
\<close>

theorem insufficient_data_no_events_witness:
  "length burst3 < 10 \<and> analyzeMarket burst3 sample_market = Inr []
   \<and> length sparse10 = 10
   \<and> allStats (sort_key timestamp sparse10) = []
   \<and> detectAnomalies sparse10 sample_market = Inr []
   \<and> analyzeMarket sparse10 sample_market = Inr []"
proof -
  have a: "length burst3 < 10" by (simp add: burst3_def)
  have b: "length sparse10 = 10" by (simp add: sparse10_def)
  have "\<forall>i < length (sort_key timestamp sparse10).
          length (window_at (sort_key timestamp sparse10) i) < 3"
    using sparse10_stats by (simp only: allStats_empty)
  then have c: "\<forall>i < length sparse10. length (window_at (sort_key timestamp sparse10) i) < 3"
    by simp
  from insufficient_data_no_events [of burst3 sample_market]
       insufficient_data_no_events [of sparse10 sample_market] a b c sparse10_stats
  show ?thesis by blast
qed

subsection \<open>C8: the deduplicator is idempotent\<close>

text \<open>
  Claim C8. For every event list (ascending or not), the deduplicator applied to its own
  output returns that output unchanged, and any two events of an output, the later at
  least 5 seconds after the earlier: no two kept events are less than 5 seconds apart.
\<close>

theorem dedup_idempotent:
  "dedup (dedup events) = dedup events
   \<and> (\<forall>i j. i < j \<and> j < length (dedup events) \<longrightarrow>
         5 \<le> e_timestamp (dedup events ! j) - e_timestamp (dedup events ! i))"
proof
  from dedup_loop_chain [of 0 events] show "dedup (dedup events) = dedup events"
    unfolding dedup_def by (intro dedup_loop_fixed) simp_all
next
  from dedup_loop_chain [of 0 events]
  have "sorted_wrt (\<lambda>a b. e_timestamp b - e_timestamp a \<ge> 5) (dedup events)"
    by (simp add: dedup_def)
  then show "\<forall>i j. i < j \<and> j < length (dedup events) \<longrightarrow>
         5 \<le> e_timestamp (dedup events ! j) - e_timestamp (dedup events ! i)"
    by (simp add: sorted_wrt_iff_nth_less)
qed

text \<open>The theorem at the events with timestamps 10, 13, 15 and 21.\<close>

theorem dedup_idempotent_witness:
  "dedup [sample_event 10, sample_event 13, sample_event 15, sample_event 21]
     = [sample_event 10, sample_event 15, sample_event 21]
   \<and> dedup [sample_event 10, sample_event 15, sample_event 21]
     = [sample_event 10, sample_event 15, sample_event 21]
   \<and> (0::nat) < 1
   \<and> 1 < length (dedup [sample_event 10, sample_event 13, sample_event 15, sample_event 21])
   \<and> 5 \<le> e_timestamp (dedup [sample_event 10, sample_event 13, sample_event 15, sample_event 21] ! 1)
          - e_timestamp (dedup [sample_event 10, sample_event 13, sample_event 15, sample_event 21] ! 0)"
  using dedup_idempotent [of "[sample_event 10, sample_event 13, sample_event 15, sample_event 21]"]
  by (simp add: sample_event_def dedup_def)

subsection \<open>C9: a zero or missing future price\<close>

text \<open>
  Claim C9. When the trade at index \<open>i\<close> has a price \<open>P\<close> other than 0, some later trade
  has a timestamp at most \<open>T + 300\<close>, and the last such trade has price 0 or no price
  field, the function puts \<open>P\<close> in place of the future price: the record has
  \<open>futurePrice = P\<close>, \<open>change = 0\<close> and direction \<open>flat\<close>.
\<close>

theorem price_change_zero_future_price:
  assumes "i < length trades"
    and "or_else (price (trades ! i)) 0 \<noteq> 0"
    and "filter (\<lambda>j. timestamp (trades ! j) \<le> T + 300) [Suc i..<length trades] \<noteq> []"
    and "price (trades ! last (filter (\<lambda>j. timestamp (trades ! j) \<le> T + 300)
            [Suc i..<length trades])) \<in> {None, Some 0}"
  shows "calculatePriceChange trades i T =
     Inr (Some \<lparr>change = 0, direction = ''flat'',
           futurePrice = or_else (price (trades ! i)) 0,
           eventPrice = or_else (price (trades ! i)) 0,
           pc_tradeCount = length (filter (\<lambda>j. timestamp (trades ! j) \<le> T + 300)
             [Suc i..<length trades])\<rparr>)"
  using assms by (auto simp: calculatePriceChange_indices Let_def)

text \<open>The theorem on the sample whose second trade has price 0.\<close>

theorem price_change_zero_future_price_witness:
  "(0::nat) < length zero_future
   \<and> or_else (price (zero_future ! 0)) 0 \<noteq> 0
   \<and> filter (\<lambda>j. timestamp (zero_future ! j) \<le> 100 + 300) [Suc 0..<length zero_future] = [1]
   \<and> price (zero_future ! 1) = Some 0
   \<and> calculatePriceChange zero_future 0 100 =
       Inr (Some \<lparr>change = 0, direction = ''flat'', futurePrice = 1 / 2, eventPrice = 1 / 2,
             pc_tradeCount = 1\<rparr>)"
proof -
  have a: "(0::nat) < length zero_future" by (simp add: zero_future_def)
  have b: "or_else (price (zero_future ! 0)) 0 \<noteq> 0"
    by (simp add: zero_future_def sample_trade_def)
  have c: "filter (\<lambda>j. timestamp (zero_future ! j) \<le> 100 + 300) [Suc 0..<length zero_future] = [1]"
    by (simp add: zero_future_def sample_trade_def upt_rec)
  have d: "price (zero_future ! 1) = Some 0"
    by (simp add: zero_future_def sample_trade_def)
  have c': "filter (\<lambda>j. timestamp (zero_future ! j) \<le> 100 + 300) [Suc 0..<length zero_future] \<noteq> []"
    using c by simp
  have d': "price (zero_future ! last (filter (\<lambda>j. timestamp (zero_future ! j) \<le> 100 + 300)
            [Suc 0..<length zero_future])) \<in> {None, Some 0}"
    using c d by simp
  from price_change_zero_future_price [OF a b c' d'] a b c d show ?thesis
    by (simp add: zero_future_def sample_trade_def)
qed

subsection \<open>C10: an emitted event has a kind and a score of at least 5\<close>

text \<open>
  Claim C10. \<^verbatim>\<open>detectAnomalies\<close> always returns normally, every event it returns has a
  non-empty list of kinds and a score of at least 5, and every kind, known or not, weighs
  at least 5.
\<close>

theorem emitted_event_score_ge_5:
  "(\<exists>events. detectAnomalies trades market = Inr events
      \<and> (\<forall>e \<in> set events. e_anomalies e \<noteq> [] \<and> 5 \<le> e_score e))
   \<and> 5 \<le> kind_weight kind"
  using detectAnomalies_events [of trades market] kind_weight_ge_5 [of kind] by blast

text \<open>The theorem on three sample trades that give one event, of score 23.\<close>

theorem emitted_event_score_ge_5_witness:
  "(\<exists>e events. detectAnomalies burst3 sample_market = Inr events \<and> e \<in> set events
       \<and> e_anomalies e = [''imbalance''] \<and> e_score e = 23 \<and> 5 \<le> e_score e)
   \<and> kind_weight ''imbalance'' = 8 \<and> kind_weight ''future_kind'' = 5"
proof -
  from emitted_event_score_ge_5 [of burst3 sample_market "''imbalance''"] burst3_events
  have "\<exists>e events. detectAnomalies burst3 sample_market = Inr events \<and> e \<in> set events
       \<and> e_anomalies e = [''imbalance''] \<and> e_score e = 23 \<and> 5 \<le> e_score e"
    by simp
  moreover have "kind_weight ''imbalance'' = 8 \<and> kind_weight ''future_kind'' = 5"
    by (simp add: kind_weight_def typeWeights_def)
  ultimately show ?thesis by blast
qed

end
